theory Spec2Isabelle
  imports Main
begin

section \<open>Text\<close>

text \<open>
  A Python \<open>str\<close> is a sequence of code points. The model takes the code points below 256
  (Latin-1), one \<open>char\<close> each; the character classes below are those of Python 3 on that
  range (\<open>str.isspace\<close>, \<open>str.lower\<close>, and the classes \<open>\s\<close>, \<open>\d\<close>, \<open>\w\<close> of \<open>re\<close> on
  \<open>str\<close> patterns).
\<close>

definition ord :: "char \<Rightarrow> nat" where
  "ord c = of_char c"

definition isspace :: "char \<Rightarrow> bool" where
  "isspace c = ((9 \<le> ord c \<and> ord c \<le> 13) \<or> (28 \<le> ord c \<and> ord c \<le> 32)
                \<or> ord c = 133 \<or> ord c = 160)"

definition isdecimal :: "char \<Rightarrow> bool" where
  "isdecimal c = (48 \<le> ord c \<and> ord c \<le> 57)"

definition isword :: "char \<Rightarrow> bool" where
  "isword c = (isdecimal c \<or> (65 \<le> ord c \<and> ord c \<le> 90) \<or> ord c = 95
               \<or> (97 \<le> ord c \<and> ord c \<le> 122)
               \<or> ord c = 170 \<or> ord c = 178 \<or> ord c = 179 \<or> ord c = 181
               \<or> ord c = 185 \<or> ord c = 186 \<or> (188 \<le> ord c \<and> ord c \<le> 190)
               \<or> (192 \<le> ord c \<and> ord c \<le> 214) \<or> (216 \<le> ord c \<and> ord c \<le> 246)
               \<or> 248 \<le> ord c)"

definition lower_char :: "char \<Rightarrow> char" where
  "lower_char c = (if (65 \<le> ord c \<and> ord c \<le> 90) \<or> (192 \<le> ord c \<and> ord c \<le> 214)
                      \<or> (216 \<le> ord c \<and> ord c \<le> 222)
                   then char_of (ord c + 32) else c)"

definition upper_char :: "char \<Rightarrow> char" where
  \<comment> \<open>the upper case of 0xB5 and 0xFF lies outside the range; they stay\<close>
  "upper_char c = (if (97 \<le> ord c \<and> ord c \<le> 122) \<or> (224 \<le> ord c \<and> ord c \<le> 246)
                      \<or> (248 \<le> ord c \<and> ord c \<le> 254)
                   then char_of (ord c - 32) else c)"

definition lower :: "string \<Rightarrow> string" where
  "lower s = map lower_char s"

definition upper :: "string \<Rightarrow> string" where
  "upper s = map upper_char s"

definition strip :: "string \<Rightarrow> string" where
  "strip s = rev (dropWhile isspace (rev (dropWhile isspace s)))"

text \<open>\<open>s.count(sub)\<close>: the number of non-overlapping occurrences, scanning from the left.\<close>

function count_sub :: "string \<Rightarrow> string \<Rightarrow> nat" where
  "count_sub s sub =
     (if sub = [] then Suc (length s)
      else if s = [] then 0
      else if take (length sub) s = sub then Suc (count_sub (drop (length sub) s) sub)
      else count_sub (tl s) sub)"
  by pat_completeness auto
termination
  by (relation "measure (\<lambda>(s, sub). length s)") auto

declare count_sub.simps [simp del]

text \<open>\<open>str(n)\<close> of a natural number, as an f-string prints it.\<close>

definition digit_char :: "nat \<Rightarrow> char" where
  "digit_char d = char_of (48 + d)"

function str_nat :: "nat \<Rightarrow> string" where
  "str_nat n = (if n < 10 then [digit_char n] else str_nat (n div 10) @ [digit_char (n mod 10)])"
  by pat_completeness auto
termination
  by (relation "measure id") auto

declare str_nat.simps [simp del]

section \<open>Regular expressions\<close>

text \<open>
  The patterns of the source, as syntax trees, and a backtracking matcher in the order of
  Python's \<open>re\<close>: \<open>ends\<close> lists the states in which a match of the pattern can end, the
  preferred one first. A state is the character before the position (for \<open>\b\<close>), the rest
  of the text, and the text of group 1 if it has matched (no pattern of the source has more
  than one group).
\<close>

datatype flag = IGNORECASE | MULTILINE

datatype citem = Ch char | Rng char char

datatype regex =
    Eps
  | Lit char
  | Dot
  | CSet bool "citem list"
  | Space
  | Digit
  | Word
  | WordB
  | Eol
  | Seq regex regex
  | Alt regex regex
  | Star regex
  | NegLook regex
  | Grp regex

type_synonym mstate = "char option \<times> string \<times> string option"

definition seqs :: "regex list \<Rightarrow> regex" where
  "seqs rs = foldr Seq rs Eps"

definition lits :: "string \<Rightarrow> regex" where
  "lits s = seqs (map Lit s)"

fun alts :: "regex list \<Rightarrow> regex" where
  "alts [] = CSet False []"
| "alts [r] = r"
| "alts (r # rs) = Alt r (alts rs)"

definition Plus :: "regex \<Rightarrow> regex" where
  "Plus r = Seq r (Star r)"

definition Opt :: "regex \<Rightarrow> regex" where
  "Opt r = Alt r Eps"

definition lit_match :: "flag list \<Rightarrow> char \<Rightarrow> char \<Rightarrow> bool" where
  "lit_match fl a c = (if IGNORECASE \<in> set fl then lower_char c = lower_char a else c = a)"

fun item_match :: "citem \<Rightarrow> char \<Rightarrow> bool" where
  "item_match (Ch a) c = (c = a)"
| "item_match (Rng a b) c = (ord a \<le> ord c \<and> ord c \<le> ord b)"

definition set_match :: "flag list \<Rightarrow> bool \<Rightarrow> citem list \<Rightarrow> char \<Rightarrow> bool" where
  "set_match fl neg items c =
     (((\<exists>i \<in> set items. item_match i c)
       \<or> (IGNORECASE \<in> set fl
          \<and> (\<exists>i \<in> set items. item_match i (lower_char c) \<or> item_match i (upper_char c))))
      \<noteq> neg)"

fun step :: "(char \<Rightarrow> bool) \<Rightarrow> mstate \<Rightarrow> mstate list" where
  "step P (p, [], g) = []"
| "step P (p, c # cs, g) = (if P c then [(Some c, cs, g)] else [])"

definition at_boundary :: "char option \<Rightarrow> string \<Rightarrow> bool" where
  "at_boundary p s =
     ((case p of None \<Rightarrow> False | Some c \<Rightarrow> isword c)
      \<noteq> (case s of [] \<Rightarrow> False | c # _ \<Rightarrow> isword c))"

definition at_eol :: "flag list \<Rightarrow> string \<Rightarrow> bool" where
  "at_eol fl s = (s = [] \<or> s = [CHR 0x0A] \<or> (MULTILINE \<in> set fl \<and> hd s = CHR 0x0A))"

function ends :: "flag list \<Rightarrow> regex \<Rightarrow> mstate \<Rightarrow> mstate list" where
  "ends fl Eps st = [st]"
| "ends fl (Lit a) st = step (lit_match fl a) st"
| "ends fl Dot st = step (\<lambda>c. c \<noteq> CHR 0x0A) st"
| "ends fl (CSet neg items) st = step (set_match fl neg items) st"
| "ends fl Space st = step isspace st"
| "ends fl Digit st = step isdecimal st"
| "ends fl Word st = step isword st"
| "ends fl WordB st = (if at_boundary (fst st) (fst (snd st)) then [st] else [])"
| "ends fl Eol st = (if at_eol fl (fst (snd st)) then [st] else [])"
| "ends fl (Seq a b) st = concat (map (ends fl b) (ends fl a st))"
| "ends fl (Alt a b) st = ends fl a st @ ends fl b st"
| "ends fl (Star a) st =
     concat (map (\<lambda>st'. if length (fst (snd st')) < length (fst (snd st))
                         then ends fl (Star a) st' else [st'])
                 (ends fl a st)) @ [st]"
| "ends fl (NegLook a) st = (if ends fl a st = [] then [st] else [])"
| "ends fl (Grp a) st =
     map (\<lambda>st'. (fst st', fst (snd st'),
                 Some (take (length (fst (snd st)) - length (fst (snd st'))) (fst (snd st)))))
         (ends fl a st)"
  by pat_completeness auto
termination
  by (relation "measures [\<lambda>(fl, r, st). size r, \<lambda>(fl, r, st). length (fst (snd st))]") auto

declare ends.simps(12) [simp del]

text \<open>\<open>re.search(pattern, s, flags)\<close>, read as a truth value: is there a match anywhere.\<close>

fun search_from :: "flag list \<Rightarrow> regex \<Rightarrow> char option \<Rightarrow> string \<Rightarrow> bool" where
  "search_from fl r p [] = (ends fl r (p, [], None) \<noteq> [])"
| "search_from fl r p (c # cs) =
     (ends fl r (p, c # cs, None) \<noteq> [] \<or> search_from fl r (Some c) cs)"

definition re_search :: "regex \<Rightarrow> string \<Rightarrow> flag list \<Rightarrow> bool" where
  "re_search r s fl = search_from fl r None s"

text \<open>
  \<open>re.findall\<close> and \<open>re.finditer\<close> for a pattern with one group: the text of group 1 of
  each match, from the left, the next search starting where the last match ended. Every
  pattern the source scans with starts with a keyword, so no match is empty; the model
  moves one character on after an empty one.
\<close>

function find_groups :: "flag list \<Rightarrow> regex \<Rightarrow> char option \<Rightarrow> string \<Rightarrow> string list" where
  "find_groups fl r p s =
     (case ends fl r (p, s, None) of
        [] \<Rightarrow> (case s of [] \<Rightarrow> [] | c # cs \<Rightarrow> find_groups fl r (Some c) cs)
      | st' # _ \<Rightarrow>
          (case snd (snd st') of None \<Rightarrow> [] | Some g \<Rightarrow> g)
          # (if length (fst (snd st')) < length s then find_groups fl r (fst st') (fst (snd st'))
             else (case s of [] \<Rightarrow> [] | c # cs \<Rightarrow> find_groups fl r (Some c) cs)))"
  by pat_completeness auto
termination
  by (relation "measure (\<lambda>(fl, r, p, s). length s)") auto

declare find_groups.simps [simp del]

definition re_findall :: "regex \<Rightarrow> string \<Rightarrow> flag list \<Rightarrow> string list" where
  "re_findall r s fl = find_groups fl r None s"

section \<open>Issues and results\<close>

datatype ValidationSeverity = ERROR | WARNING | INFO

record ValidationIssue =
  severity :: ValidationSeverity
  category :: string
  message :: string
  line :: "int option"
  column :: "int option"
  suggestion :: "string option"

record ValidationResult =
  is_valid :: bool
  issues :: "ValidationIssue list"

text \<open>The constructor call \<open>ValidationIssue(severity=..., category=..., message=...,
  suggestion=...)\<close>: \<open>line\<close> and \<open>column\<close> keep their default \<open>None\<close>.\<close>

definition issue :: "ValidationSeverity \<Rightarrow> string \<Rightarrow> string \<Rightarrow> string option \<Rightarrow> ValidationIssue" where
  "issue sev cat msg sug =
     \<lparr>severity = sev, category = cat, message = msg, line = None, column = None,
      suggestion = sug\<rparr>"

definition has_errors :: "ValidationResult \<Rightarrow> bool" where
  "has_errors r = list_ex (\<lambda>i. severity i = ERROR) (issues r)"

definition get_errors :: "ValidationResult \<Rightarrow> ValidationIssue list" where
  "get_errors r = filter (\<lambda>i. severity i = ERROR) (issues r)"

section \<open>The pattern tables\<close>

definition quote :: char where
  "quote = CHR 0x27"

definition dquote :: char where
  "dquote = CHR 0x22"

definition backslash :: char where
  "backslash = CHR 0x5C"

definition newline :: char where
  "newline = CHR 0x0A"

definition SQL_INJECTION_PATTERNS :: "(regex \<times> string) list" where
  "SQL_INJECTION_PATTERNS =
   [(seqs [Lit quote, Star Space, Lit CHR '';'', Star Space, lits ''DROP'', Plus Space,
           lits ''TABLE''],
     ''Potential DROP TABLE injection''),
    (seqs [Lit quote, Star Space, Lit CHR '';'', Star Space, lits ''DELETE'', Plus Space,
           lits ''FROM''],
     ''Potential DELETE injection''),
    (seqs [Lit quote, Star Space, Lit CHR '';'', Star Space, lits ''EXEC'', Star Space,
           Lit CHR ''(''],
     ''Potential EXEC injection''),
    (seqs [Lit quote, Star Space, lits ''OR'', Plus Space, Opt (Lit quote), Plus Digit,
           Opt (Lit quote), Star Space, Lit CHR ''='', Star Space, Lit quote, Plus Digit],
     ''Potential OR-based injection''),
    (seqs [Lit quote, Star Space, lits ''AND'', Plus Space, Opt (Lit quote), Plus Digit,
           Opt (Lit quote), Star Space, Lit CHR ''='', Star Space, Lit quote, Plus Digit],
     ''Potential AND-based injection''),
    (seqs [Lit quote, Star Space, Lit CHR '';'', Star Space, lits ''--''],
     ''Comment-based injection''),
    (seqs [lits ''admin'', Lit quote, lits ''--''],
     ''Comment-based authentication bypass''),
    (seqs [lits ''admin'', Lit quote, Lit CHR ''#''],
     ''Comment-based authentication bypass''),
    (seqs [Lit quote, Plus Space, lits ''OR'', Plus Space, Lit CHR ''1'', Star Space,
           Lit CHR ''='', Star Space, Lit CHR ''1''],
     ''Classic tautology injection''),
    (seqs [lits ''UNION'', Plus Space, lits ''SELECT''],
     ''Potential UNION-based injection'')]"

definition PERFORMANCE_PATTERNS :: "(regex \<times> string) list" where
  "PERFORMANCE_PATTERNS =
   [(seqs [lits ''SELECT'', Plus Space, Lit CHR ''*'', Plus Space, lits ''FROM''],
     ''SELECT * can be inefficient, specify columns''),
    (seqs [lits ''SELECT'', Plus Space, Lit CHR ''*'', Plus Space, lits ''FROM'', Plus Space,
           Plus Word, Plus Space, lits ''WHERE'', Plus Space, Plus Word, Plus Space,
           lits ''LIKE'', Plus Space, Lit quote, Lit CHR ''%'', Star (CSet True [Ch CHR ''%'']),
           Lit CHR ''%'', Lit quote],
     ''Leading wildcard in LIKE prevents index use''),
    (seqs [lits ''WHERE'', Plus Space, lits ''SUBSTR'', Lit CHR ''(''],
     ''Function on column in WHERE prevents index use''),
    (seqs [lits ''WHERE'', Plus Space, lits ''SUBSTRING'', Lit CHR ''(''],
     ''Function on column in WHERE prevents index use''),
    (seqs [lits ''WHERE'', Plus Space, lits ''LOWER'', Lit CHR ''(''],
     ''Function on column in WHERE prevents index use''),
    (seqs [lits ''WHERE'', Plus Space, lits ''UPPER'', Lit CHR ''(''],
     ''Function on column in WHERE prevents index use''),
    (seqs [lits ''ORDER'', Plus Space, lits ''BY'', Plus Space, Plus Digit,
           Star (seqs [Star Space, Lit CHR '','', Star Space, Plus Digit])],
     ''ORDER BY ordinal position is fragile'')]"

text \<open>The patterns written inside the functions.\<close>

definition semicolon_pattern :: regex where
  \<comment> \<open>\<open>;\s*$\<close>\<close>
  "semicolon_pattern = seqs [Lit CHR '';'', Star Space, Eol]"

definition select_no_from_pattern :: regex where
  \<comment> \<open>\<open>SELECT\s+(?!.*\bFROM\b)\<close>\<close>
  "select_no_from_pattern =
     seqs [lits ''SELECT'', Plus Space, NegLook (seqs [Star Dot, WordB, lits ''FROM'', WordB])]"

definition credential_pattern :: regex where
  \<comment> \<open>\<open>(password|passwd|pwd)\s*=\s*'[^{']+\"\<close>\<close>
  "credential_pattern =
     seqs [Grp (alts [lits ''password'', lits ''passwd'', lits ''pwd'']), Star Space,
           Lit CHR ''='', Star Space, Lit quote, Plus (CSet True [Ch CHR ''{'', Ch quote]),
           Lit dquote]"

definition select_from_pattern :: regex where
  \<comment> \<open>\<open>SELECT.+FROM\<close>\<close>
  "select_from_pattern = seqs [lits ''SELECT'', Plus Dot, lits ''FROM'']"

definition limit_pattern :: regex where
  \<comment> \<open>\<open>\bLIMIT\b\<close>\<close>
  "limit_pattern = seqs [WordB, lits ''LIMIT'', WordB]"

definition delete_update_pattern :: regex where
  \<comment> \<open>\<open>\b(DELETE|UPDATE)\b\<close>\<close>
  "delete_update_pattern = seqs [WordB, Grp (alts [lits ''DELETE'', lits ''UPDATE'']), WordB]"

definition where_pattern :: regex where
  \<comment> \<open>\<open>\bWHERE\b\<close>\<close>
  "where_pattern = seqs [WordB, lits ''WHERE'', WordB]"

definition identifier_group :: regex where
  \<comment> \<open>\<open>([a-zA-Z_][a-zA-Z0-9_]*)\<close>\<close>
  "identifier_group =
     Grp (seqs [CSet False [Rng CHR ''a'' CHR ''z'', Rng CHR ''A'' CHR ''Z'', Ch CHR ''_''],
                Star (CSet False [Rng CHR ''a'' CHR ''z'', Rng CHR ''A'' CHR ''Z'',
                                  Rng CHR ''0'' CHR ''9'', Ch CHR ''_''])])"

definition identifier_patterns :: "regex list" where
  "identifier_patterns =
   [seqs [WordB, lits ''FROM'', Plus Space, identifier_group],
    seqs [WordB, lits ''JOIN'', Plus Space, identifier_group],
    seqs [WordB, lits ''INSERT'', Plus Space, lits ''INTO'', Plus Space, identifier_group],
    seqs [WordB, lits ''UPDATE'', Plus Space, identifier_group],
    seqs [WordB, lits ''CREATE'', Plus Space, lits ''TABLE'', Plus Space, identifier_group]]"

definition mixed_case_pattern :: regex where
  \<comment> \<open>\<open>[a-z][A-Z]\<close>\<close>
  "mixed_case_pattern =
     seqs [CSet False [Rng CHR ''a'' CHR ''z''], CSet False [Rng CHR ''A'' CHR ''Z'']]"

definition table_pattern :: regex where
  \<comment> \<open>\<open>\b(?:FROM|JOIN|INSERT\s+INTO|UPDATE|CREATE\s+TABLE|DROP\s+TABLE)\s+([a-zA-Z_][a-zA-Z0-9_]*)\<close>\<close>
  "table_pattern =
     seqs [WordB,
           alts [lits ''FROM'', lits ''JOIN'',
                 seqs [lits ''INSERT'', Plus Space, lits ''INTO''],
                 lits ''UPDATE'',
                 seqs [lits ''CREATE'', Plus Space, lits ''TABLE''],
                 seqs [lits ''DROP'', Plus Space, lits ''TABLE'']],
           Plus Space, identifier_group]"

section \<open>The checkers\<close>

definition validate_syntax :: "string \<Rightarrow> ValidationResult" where
  "validate_syntax sql =
     (let sql_clean = strip sql in
      if sql_clean = [] then
        \<lparr>is_valid = False, issues = [issue ERROR ''syntax'' ''Empty SQL statement'' None]\<rparr>
      else
        let open_parens = count_sub sql_clean ''('';
            close_parens = count_sub sql_clean '')'';
            issues1 =
              (if open_parens \<noteq> close_parens
               then [issue ERROR ''syntax''
                       (''Unbalanced parentheses: '' @ str_nat open_parens @ '' open, ''
                        @ str_nat close_parens @ '' close'')
                       (Some ''Ensure all opening parentheses have matching closing parentheses'')]
               else []);
            single_quotes =
              int (count_sub sql_clean [quote]) - int (count_sub sql_clean [backslash, quote]);
            issues2 =
              issues1 @
              (if single_quotes mod 2 \<noteq> 0
               then [issue ERROR ''syntax'' ''Unbalanced single quotes''
                       (Some ''Ensure all single quotes are properly closed'')]
               else []);
            issues3 =
              issues2 @
              (if \<not> re_search semicolon_pattern sql_clean []
               then [issue INFO ''style'' ''Missing semicolon at end of statement''
                       (Some ''Add semicolon for better SQL standards compliance'')]
               else []);
            issues4 =
              issues3 @
              (if re_search select_no_from_pattern sql_clean [IGNORECASE]
               then [issue ERROR ''syntax'' ''SELECT without FROM clause''
                       (Some ''Check if SELECT statement is properly formed'')]
               else [])
        in \<lparr>is_valid = (length issues4 = 0), issues = issues4\<rparr>)"

definition validate_security :: "string \<Rightarrow> ValidationResult" where
  "validate_security sql =
     (let issues1 =
            concat (map (\<lambda>(pattern, msg).
                           if re_search pattern sql [IGNORECASE]
                           then [issue ERROR ''security'' msg
                                   (Some ''Use parameterized queries instead of string concatenation'')]
                           else [])
                        SQL_INJECTION_PATTERNS);
          issues2 =
            issues1 @
            (if re_search credential_pattern sql [IGNORECASE]
             then [issue WARNING ''security'' ''Possible hardcoded password in query''
                     (Some ''Use parameterized queries for sensitive data'')]
             else [])
      in \<lparr>is_valid = True, issues = issues2\<rparr>)"

definition validate_performance :: "string \<Rightarrow> ValidationResult" where
  "validate_performance sql =
     (let issues1 =
            concat (map (\<lambda>(pattern, msg).
                           if re_search pattern sql [IGNORECASE, MULTILINE]
                           then [issue WARNING ''performance'' msg None]
                           else [])
                        PERFORMANCE_PATTERNS);
          issues2 =
            issues1 @
            (if re_search select_from_pattern sql [IGNORECASE]
             then (if \<not> re_search limit_pattern sql [IGNORECASE]
                   then [issue INFO ''performance'' ''No LIMIT clause on SELECT statement''
                           (Some ''Consider adding LIMIT to prevent large result sets'')]
                   else [])
             else []);
          issues3 =
            issues2 @
            (if re_search delete_update_pattern sql [IGNORECASE]
             then (if \<not> re_search where_pattern sql [IGNORECASE]
                   then [issue WARNING ''performance'' ''DELETE/UPDATE without WHERE clause''
                           (Some ''Ensure WHERE clause is present to avoid full table operations'')]
                   else [])
             else [])
      in \<lparr>is_valid = True, issues = issues3\<rparr>)"

definition validate_naming :: "string \<Rightarrow> ValidationResult" where
  "validate_naming sql =
     (let issues1 =
            concat (map (\<lambda>pattern.
                      concat (map (\<lambda>ident.
                                if re_search mixed_case_pattern ident []
                                then [issue INFO ''naming''
                                        (''Identifier '' @ [quote] @ ident @ [quote]
                                         @ '' uses mixed case'')
                                        (Some ''Consider using snake_case for consistency'')]
                                else [])
                              (re_findall pattern sql [IGNORECASE])))
                    identifier_patterns)
      in \<lparr>is_valid = True, issues = issues1\<rparr>)"

section \<open>The existence pass and the aggregator\<close>

record KingbaseConfig =
  host :: string
  port :: int
  database :: string
  user :: string
  password :: string
  schema :: string
  connect_timeout :: int
  application_name :: string

text \<open>
  What \<open>validate_table_exists\<close> reads from outside the program:
  \<^item> \<open>from_env\<close>: the outcome of \<open>KingbaseConfig.from_env()\<close>, a configuration, or the
    message of the exception that \<open>int\<close> raises on a malformed port or timeout variable;
  \<^item> \<open>list_tables\<close>: the outcome of the body of the \<open>try\<close> block up to the table listing
    (connecting, running the \<open>pg_tables\<close> query for the schema, fetching the rows): the
    \<open>tablename\<close> of each row, or \<open>str(e)\<close> of the exception \<open>e\<close> raised on the way.
    \<open>conn.close()\<close> swallows every exception of its own;
  \<^item> \<open>str_hash\<close>: the order in which \<open>list(set(...))\<close> enumerates a set of strings is not
    fixed by the language; it is taken as the order of some key of the environment.
\<close>

record environment =
  from_env :: "string + KingbaseConfig"
  list_tables :: "KingbaseConfig \<Rightarrow> string \<Rightarrow> string + string list"
  str_hash :: "string \<Rightarrow> nat"

definition referenced_tables :: "environment \<Rightarrow> string \<Rightarrow> string list" where
  "referenced_tables env sql =
     (let tables = re_findall table_pattern sql [IGNORECASE]
      in sort_key (str_hash env)
           (remdups [lower t. t \<leftarrow> tables,
                     \<not> (lower t \<in> set [''select'', ''where'', ''order'', ''group''])]))"

definition validate_table_exists ::
  "environment \<Rightarrow> string \<Rightarrow> KingbaseConfig option \<Rightarrow> string option
   \<Rightarrow> string + ValidationResult" where
  "validate_table_exists env sql config schema_arg =
     (case (case config of None \<Rightarrow> from_env env | Some c \<Rightarrow> Inr c) of
        Inl e \<Rightarrow> Inl e
      | Inr config \<Rightarrow>
          let schema = (case schema_arg of None \<Rightarrow> KingbaseConfig.schema config | Some s \<Rightarrow> s);
              tables = referenced_tables env sql
          in if tables = [] then Inr \<lparr>is_valid = True, issues = []\<rparr>
             else
               let issues1 =
                     (case list_tables env config schema of
                        Inr rows \<Rightarrow>
                          let existing_tables = set (map lower rows)
                          in concat (map (\<lambda>table.
                                            if table \<notin> existing_tables
                                            then [issue ERROR ''existence''
                                                    (''Table '' @ [quote] @ table @ [quote]
                                                     @ '' does not exist in schema '' @ [quote]
                                                     @ schema @ [quote])
                                                    (Some ''Verify table name or create the table first'')]
                                            else [])
                                          tables)
                      | Inl e \<Rightarrow>
                          [issue WARNING ''existence''
                             (''Could not verify table existence: '' @ e)
                             (Some ''Ensure database connection is working'')])
               in Inr \<lparr>is_valid = (length issues1 = 0), issues = issues1\<rparr>)"

definition validate_sql ::
  "environment \<Rightarrow> string \<Rightarrow> KingbaseConfig option \<Rightarrow> bool \<Rightarrow> string + ValidationResult" where
  "validate_sql env sql config check_existence =
     (let all_issues1 = [] @ issues (validate_syntax sql);
          all_issues2 = all_issues1 @ issues (validate_security sql);
          all_issues3 = all_issues2 @ issues (validate_performance sql);
          all_issues4 = all_issues3 @ issues (validate_naming sql)
      in case (if check_existence
               then (case validate_table_exists env sql config None of
                       Inl e \<Rightarrow> Inl e
                     | Inr r \<Rightarrow> Inr (all_issues4 @ issues r))
               else Inr all_issues4) of
           Inl e \<Rightarrow> Inl e
         | Inr all_issues \<Rightarrow>
             let has_errors = list_ex (\<lambda>i. severity i = ERROR) all_issues
             in Inr \<lparr>is_valid = \<not> has_errors, issues = all_issues\<rparr>)"

section \<open>Notions the properties are stated with\<close>

text \<open>The issues the checkers build, by name.\<close>

definition empty_statement_issue :: ValidationIssue where
  "empty_statement_issue = issue ERROR ''syntax'' ''Empty SQL statement'' None"

definition unbalanced_quotes_issue :: ValidationIssue where
  "unbalanced_quotes_issue =
     issue ERROR ''syntax'' ''Unbalanced single quotes''
       (Some ''Ensure all single quotes are properly closed'')"

definition missing_semicolon_issue :: ValidationIssue where
  "missing_semicolon_issue =
     issue INFO ''style'' ''Missing semicolon at end of statement''
       (Some ''Add semicolon for better SQL standards compliance'')"

definition select_without_from_issue :: ValidationIssue where
  "select_without_from_issue =
     issue ERROR ''syntax'' ''SELECT without FROM clause''
       (Some ''Check if SELECT statement is properly formed'')"



text \<open>The categories the specification lists for an issue.\<close>

definition documented_categories :: "string list" where
  "documented_categories = [''syntax'', ''security'', ''performance'', ''naming'', ''existence'']"

text \<open>The character before the position reached after reading \<open>a\<close>, when \<open>p\<close> was the
  character before \<open>a\<close>.\<close>

definition lastopt :: "char option \<Rightarrow> string \<Rightarrow> char option" where
  "lastopt p a = (if a = [] then p else Some (last a))"

text \<open>
  The number of single quotes of a text that are not directly preceded by a backslash:
  every character is paired with the one before it (\<open>None\<close> for the first).
\<close>

definition unescaped_quotes :: "string \<Rightarrow> nat" where
  "unescaped_quotes s =
     length (filter (\<lambda>(p, c). c = quote \<and> p \<noteq> Some backslash) (zip (None # map Some s) s))"

text \<open>
  A keyword, given in lower case, stands at the start of \<open>s\<close> as a whole word, in any
  letter case: the character before (\<open>p\<close>) and the character after are not word
  characters. It occurs on the current line if it stands so at a position that is reached
  without passing a newline.
\<close>

definition word_before :: "char option \<Rightarrow> bool" where
  "word_before p = (case p of None \<Rightarrow> False | Some c \<Rightarrow> isword c)"

definition word_next :: "string \<Rightarrow> bool" where
  "word_next s = (case s of [] \<Rightarrow> False | c # _ \<Rightarrow> isword c)"

definition keyword_at :: "string \<Rightarrow> char option \<Rightarrow> string \<Rightarrow> bool" where
  "keyword_at kw p s =
     (length kw \<le> length s \<and> lower (take (length kw) s) = kw
      \<and> \<not> word_before p \<and> \<not> word_next (drop (length kw) s))"

fun keyword_in_line :: "string \<Rightarrow> char option \<Rightarrow> string \<Rightarrow> bool" where
  "keyword_in_line kw p [] = keyword_at kw p []"
| "keyword_in_line kw p (c # cs) =
     (keyword_at kw p (c # cs) \<or> (c \<noteq> newline \<and> keyword_in_line kw (Some c) cs))"

text \<open>The configuration with the defaults of the \<open>KingbaseConfig\<close> dataclass, and an
  environment whose table listing always fails.\<close>

definition default_config :: KingbaseConfig where
  "default_config =
     \<lparr>host = ''localhost'', port = 54321, database = ''test'', user = ''system'',
      password = [], schema = ''public'', connect_timeout = 10,
      application_name = ''kingbase_skill''\<rparr>"

definition failing_env :: environment where
  "failing_env =
     \<lparr>from_env = Inr default_config,
      list_tables = (\<lambda>config schema. Inl ''connection refused''),
      str_hash = length\<rparr>"

text \<open>Every character of a text with the character before it.\<close>

definition pairs :: "char option \<Rightarrow> string \<Rightarrow> (char option \<times> char) list" where
  "pairs p s = zip (p # map Some s) s"


section \<open>Facts about the matcher\<close>


lemma lastopt_simps [simp]:
  "lastopt p [] = p" "lastopt p (a @ [c]) = Some c" "lastopt p (c # a) = lastopt (Some c) a"
  by (auto simp: lastopt_def)

lemma lastopt_append: "lastopt p (a @ b) = lastopt (lastopt p a) b"
  by (auto simp: lastopt_def)

lemma set_ends_Seq:
  "set (ends fl (Seq a b) st) = (\<Union>st' \<in> set (ends fl a st). set (ends fl b st'))"
  by simp

lemma seqs_Cons [simp]: "seqs (r # rs) = Seq r (seqs rs)" and seqs_Nil [simp]: "seqs [] = Eps"
  by (simp_all add: seqs_def)

lemma lits_Cons: "lits (a # w) = Seq (Lit a) (lits w)" and lits_Nil: "lits [] = Eps"
  by (simp_all add: lits_def)

lemma step_set: "set (step P (p, s, g)) = {(Some c, cs, g) | c cs. s = c # cs \<and> P c}"
  by (cases s) auto

lemma ends_lits:
  "set (ends fl (lits w) (p, s, g)) =
     {(lastopt p w', r, g) | w' r. s = w' @ r \<and> list_all2 (lit_match fl) w w'}"
proof (induction w arbitrary: p s)
  case Nil
  then show ?case by (simp add: lits_Nil)
next
  case (Cons a w)
  show ?case
  proof (cases s)
    case Nil
    then show ?thesis by (auto simp: lits_Cons list_all2_Cons1)
  next
    case (Cons c cs)
    then show ?thesis
      by (auto simp: lits_Cons Cons.IH list_all2_Cons1)
  qed
qed

lemma ends_Star_step:
  assumes r: "\<And>st. ends fl r st = step P st"
  shows "set (ends fl (Star r) (p, s, g)) =
     {(lastopt p a, b, g) | a b. s = a @ b \<and> (\<forall>c \<in> set a. P c)}"
proof (induction s arbitrary: p)
  case Nil
  show ?case by (subst ends.simps(12)) (simp add: r)
next
  case (Cons c cs)
  show ?case
    apply (subst ends.simps(12))
    apply (auto simp: r Cons.IH Cons_eq_append_conv)
    done
qed

lemma search_from_iff:
  "search_from fl r p s \<longleftrightarrow> (\<exists>a b. s = a @ b \<and> ends fl r (lastopt p a, b, None) \<noteq> [])"
proof (induction s arbitrary: p)
  case Nil
  then show ?case by simp
next
  case (Cons c cs)
  show ?case
  proof
    assume "search_from fl r p (c # cs)"
    then consider "ends fl r (p, c # cs, None) \<noteq> []" | "search_from fl r (Some c) cs"
      by auto
    then show "\<exists>a b. c # cs = a @ b \<and> ends fl r (lastopt p a, b, None) \<noteq> []"
    proof cases
      case 1
      then have "c # cs = [] @ (c # cs) \<and> ends fl r (lastopt p [], c # cs, None) \<noteq> []"
        by simp
      then show ?thesis by blast
    next
      case 2
      then obtain a b where "cs = a @ b" "ends fl r (lastopt (Some c) a, b, None) \<noteq> []"
        using Cons.IH by blast
      then have "c # cs = (c # a) @ b \<and> ends fl r (lastopt p (c # a), b, None) \<noteq> []"
        by simp
      then show ?thesis by blast
    qed
  next
    assume "\<exists>a b. c # cs = a @ b \<and> ends fl r (lastopt p a, b, None) \<noteq> []"
    then obtain a b where ab: "c # cs = a @ b" "ends fl r (lastopt p a, b, None) \<noteq> []"
      by blast
    show "search_from fl r p (c # cs)"
    proof (cases a)
      case Nil
      with ab have "ends fl r (p, c # cs, None) \<noteq> []" by simp
      then show ?thesis by simp
    next
      case (Cons x xs)
      with ab have "cs = xs @ b" "ends fl r (lastopt (Some c) xs, b, None) \<noteq> []"
        by auto
      then have "search_from fl r (Some c) cs" using Cons.IH by blast
      then show ?thesis by simp
    qed
  qed
qed

lemma re_search_iff:
  "re_search r s fl \<longleftrightarrow> (\<exists>a b. s = a @ b \<and> ends fl r (lastopt None a, b, None) \<noteq> [])"
  by (simp add: re_search_def search_from_iff)


subsection \<open>Characters\<close>

lemma ord_lower_char:
  "ord (lower_char c) =
     (if (65 \<le> ord c \<and> ord c \<le> 90) \<or> (192 \<le> ord c \<and> ord c \<le> 214) \<or> (216 \<le> ord c \<and> ord c \<le> 222)
      then ord c + 32 else ord c)"
  by (auto simp: lower_char_def ord_def)

lemma lit_match_ic [simp]: "lit_match [IGNORECASE] a c \<longleftrightarrow> lower_char c = lower_char a"
  by (simp add: lit_match_def)

lemma lit_match_exact [simp]: "lit_match [] a c \<longleftrightarrow> c = a"
  by (simp add: lit_match_def)

lemma list_all2_lit_match:
  "list_all2 (lit_match [IGNORECASE]) kw w \<longleftrightarrow> lower w = lower kw"
proof (induction kw arbitrary: w)
  case Nil
  then show ?case by (auto simp: lower_def)
next
  case (Cons a kw)
  then show ?case by (cases w) (auto simp: lower_def)
qed

lemma isword_lower_letter:
  assumes "lower_char c = lower_char a" "65 \<le> ord a" "ord a \<le> 90"
  shows "isword c"
proof -
  have "ord (lower_char c) = ord a + 32"
    using assms by (simp add: ord_lower_char)
  then show ?thesis
    using assms(2,3) by (auto simp: ord_lower_char isword_def split: if_splits)
qed

lemma isspace_not_isword: "isspace c \<Longrightarrow> \<not> isword c"
  by (auto simp: isspace_def isword_def isdecimal_def)

lemma isspace_newline [simp]: "isspace newline"
  by (simp add: isspace_def newline_def ord_def)

subsection \<open>Stripping and the terminator\<close>

lemma strip_all_space:
  assumes "\<forall>c \<in> set s. isspace c"
  shows "strip s = []"
proof -
  have d: "dropWhile isspace s = []" using assms by (simp add: dropWhile_eq_Nil_conv)
  show ?thesis unfolding strip_def d by simp
qed

lemma last_strip: "strip s \<noteq> [] \<Longrightarrow> \<not> isspace (last (strip s))"
  by (simp add: strip_def last_rev hd_dropWhile)

lemma strip_decomp:
  "\<exists>a b. s = a @ strip s @ b \<and> (\<forall>c \<in> set a. isspace c) \<and> (\<forall>c \<in> set b. isspace c)"
proof -
  let ?a = "takeWhile isspace s"
  let ?t = "dropWhile isspace s"
  let ?b = "rev (takeWhile isspace (rev ?t))"
  have "?t = rev (rev ?t)" by simp
  also have "\<dots> = rev (takeWhile isspace (rev ?t) @ dropWhile isspace (rev ?t))"
    by (simp only: takeWhile_dropWhile_id)
  also have "\<dots> = strip s @ ?b" by (simp only: rev_append strip_def)
  finally have t: "?t = strip s @ ?b" .
  have "s = ?a @ ?t" by simp
  with t have "s = ?a @ strip s @ ?b" by simp
  moreover have "\<forall>c \<in> set ?a. isspace c" by (auto dest: set_takeWhileD)
  moreover have "\<forall>c \<in> set ?b. isspace c" by (auto dest: set_takeWhileD)
  ultimately show ?thesis by blast
qed

lemma ends_Star_Space:
  "set (ends fl (Star Space) (p, s, g)) =
     {(lastopt p a, b, g) | a b. s = a @ b \<and> (\<forall>c \<in> set a. isspace c)}"
  by (rule ends_Star_step) simp

lemma ends_Star_Dot:
  "set (ends fl (Star Dot) (p, s, g)) =
     {(lastopt p a, b, g) | a b. s = a @ b \<and> (\<forall>c \<in> set a. c \<noteq> newline)}"
  unfolding newline_def by (rule ends_Star_step) simp

lemma nonempty_set: "xs \<noteq> [] \<longleftrightarrow> (\<exists>x. x \<in> set xs)"
  by (cases xs) auto

lemma semicolon_sound:
  assumes "re_search semicolon_pattern s []"
  shows "\<exists>a b. s = a @ CHR '';'' # b \<and> (\<forall>c \<in> set b. isspace c)"
proof -
  from assms obtain a b st where ab: "s = a @ b"
    and st: "st \<in> set (ends [] semicolon_pattern (lastopt None a, b, None))"
    by (auto simp: re_search_iff nonempty_set)
  from st obtain w r where "b = CHR '';'' # w @ r" "\<forall>c \<in> set w. isspace c" "at_eol [] r"
    by (auto simp: semicolon_pattern_def step_set ends_Star_Space split: if_splits)
  moreover from this have "\<forall>c \<in> set r. isspace c"
    using isspace_newline by (auto simp: at_eol_def newline_def)
  ultimately have "s = a @ CHR '';'' # (w @ r) \<and> (\<forall>c \<in> set (w @ r). isspace c)"
    using ab by auto
  then show ?thesis by blast
qed

lemma semicolon_strip:
  assumes "strip sql \<noteq> []" "last (strip sql) \<noteq> CHR '';''"
  shows "\<not> re_search semicolon_pattern (strip sql) []"
proof
  assume "re_search semicolon_pattern (strip sql) []"
  then obtain a b where ab: "strip sql = a @ CHR '';'' # b" "\<forall>c \<in> set b. isspace c"
    using semicolon_sound by blast
  show False
  proof (cases b rule: rev_cases)
    case Nil
    with ab assms show False by simp
  next
    case (snoc ys y)
    with ab have "last (strip sql) = y" "isspace y" by simp_all
    with assms(1) show False using last_strip by blast
  qed
qed

subsection \<open>Counting quotes\<close>

lemma pairs_simps [simp]: "pairs p [] = []" "pairs p (c # cs) = (p, c) # pairs (Some c) cs"
  by (simp_all add: pairs_def)

lemma pairs_append: "pairs p (a @ b) = pairs p a @ pairs (lastopt p a) b"
  by (induction a arbitrary: p) auto

lemma count_quote: "count_sub s [quote] = length (filter (\<lambda>c. c = quote) s)"
proof (induction s)
  case Nil
  show ?case by (simp add: count_sub.simps)
next
  case (Cons c cs)
  then show ?case by (subst count_sub.simps) (auto simp: take_Suc_conv_app_nth)
qed

lemma quote_ne_backslash [simp]: "quote \<noteq> backslash" "backslash \<noteq> quote"
  by (simp_all add: quote_def backslash_def)

lemma count_escaped:
  "\<not> (p = Some backslash \<and> s \<noteq> [] \<and> hd s = quote) \<Longrightarrow>
   count_sub s [backslash, quote]
     = length (filter (\<lambda>(p, c). c = quote \<and> p = Some backslash) (pairs p s))"
proof (induction s "[backslash, quote]" arbitrary: p rule: count_sub.induct)
  case (1 s)
  show ?case
  proof (cases s)
    case Nil
    then show ?thesis by (simp add: count_sub.simps)
  next
    case (Cons c cs)
    show ?thesis
    proof (cases "take 2 s = [backslash, quote]")
      case True
      then obtain r where s: "s = backslash # quote # r"
        using Cons by (cases cs) (auto simp: numeral_2_eq_2)
      have "count_sub r [backslash, quote]
              = length (filter (\<lambda>(p, c). c = quote \<and> p = Some backslash) (pairs (Some quote) r))"
        using "1.hyps"(1)[of "Some quote"] s by simp
      then show ?thesis using s "1.prems" by (subst count_sub.simps) simp
    next
      case False
      have nq: "\<not> (Some c = Some backslash \<and> cs \<noteq> [] \<and> hd cs = quote)"
        using False Cons by (cases cs) (auto simp: numeral_2_eq_2)
      have "count_sub cs [backslash, quote]
              = length (filter (\<lambda>(p, c). c = quote \<and> p = Some backslash) (pairs (Some c) cs))"
        using "1.hyps"(2)[of "Some c"] False Cons nq by simp
      then show ?thesis using False Cons "1.prems" by (subst count_sub.simps) auto
    qed
  qed
qed

lemma quotes_split:
  "length (filter (\<lambda>c. c = quote) s)
     = length (filter (\<lambda>(p, c). c = quote \<and> p \<noteq> Some backslash) (pairs p s))
       + length (filter (\<lambda>(p, c). c = quote \<and> p = Some backslash) (pairs p s))"
  by (induction s arbitrary: p) auto

lemma single_quotes_eq:
  "int (count_sub s [quote]) - int (count_sub s [backslash, quote]) = int (unescaped_quotes s)"
proof -
  have "count_sub s [backslash, quote]
          = length (filter (\<lambda>(p, c). c = quote \<and> p = Some backslash) (pairs None s))"
    by (rule count_escaped) simp
  then show ?thesis
    using quotes_split[of s None] by (simp add: count_quote unescaped_quotes_def pairs_def)
qed

lemma isspace_not_quote: "isspace c \<Longrightarrow> c \<noteq> quote" and isspace_not_backslash: "isspace c \<Longrightarrow> c \<noteq> backslash"
  by (auto simp: isspace_def quote_def backslash_def ord_def)

lemma uq_space: "\<forall>c \<in> set a. isspace c \<Longrightarrow> filter (\<lambda>(p, c). c = quote \<and> p \<noteq> Some backslash) (pairs p a) = []"
  by (induction a arbitrary: p) (auto dest: isspace_not_quote)

lemma uq_prev:
  "p \<noteq> Some backslash \<Longrightarrow> p' \<noteq> Some backslash \<Longrightarrow>
   length (filter (\<lambda>(p, c). c = quote \<and> p \<noteq> Some backslash) (pairs p m))
     = length (filter (\<lambda>(p, c). c = quote \<and> p \<noteq> Some backslash) (pairs p' m))"
  by (cases m) auto

lemma lastopt_space:
  assumes "\<forall>c \<in> set a. isspace c"
  shows "lastopt None a \<noteq> Some backslash"
proof (cases "a = []")
  case True
  then show ?thesis by simp
next
  case False
  then have "isspace (last a)" using assms by simp
  then show ?thesis using False by (auto simp: lastopt_def dest: isspace_not_backslash)
qed

lemma unescaped_quotes_strip: "unescaped_quotes (strip s) = unescaped_quotes s"
proof -
  obtain a b where s: "s = a @ strip s @ b" and a: "\<forall>c \<in> set a. isspace c"
    and b: "\<forall>c \<in> set b. isspace c"
    using strip_decomp by blast
  let ?f = "filter (\<lambda>(p, c). c = quote \<and> p \<noteq> Some backslash)"
  have "unescaped_quotes s = length (?f (pairs None (a @ strip s @ b)))"
    using s by (simp add: unescaped_quotes_def pairs_def)
  also have "\<dots> = length (?f (pairs (lastopt None a) (strip s)))"
    by (simp add: pairs_append uq_space[OF a] uq_space[OF b])
  also have "\<dots> = length (?f (pairs None (strip s)))"
    using uq_prev[OF lastopt_space[OF a], of None] by simp
  finally show ?thesis by (simp add: unescaped_quotes_def pairs_def)
qed

subsection \<open>Issues\<close>

lemma issue_simps [simp]:
  "severity (issue sev cat msg sug) = sev" "category (issue sev cat msg sug) = cat"
  "message (issue sev cat msg sug) = msg" "suggestion (issue sev cat msg sug) = sug"
  by (simp_all add: issue_def)

lemma issue_eq_iff:
  "issue sev cat msg sug = issue sev' cat' msg' sug' \<longleftrightarrow>
     sev = sev' \<and> cat = cat' \<and> msg = msg' \<and> sug = sug'"
  by (auto simp: issue_def)

lemma validate_syntax_blank:
  "strip sql = [] \<Longrightarrow> validate_syntax sql = \<lparr>is_valid = False, issues = [empty_statement_issue]\<rparr>"
  by (simp add: validate_syntax_def empty_statement_issue_def)

subsection \<open>Keywords and the SELECT patterns\<close>

lemma seq_in:
  "st1 \<in> set (ends fl a st) \<Longrightarrow> st2 \<in> set (ends fl b st1) \<Longrightarrow> st2 \<in> set (ends fl (Seq a b) st)"
  by auto

lemma lits_in:
  "lower w = lower kw \<Longrightarrow> (lastopt p w, r, g) \<in> set (ends [IGNORECASE] (lits kw) (p, w @ r, g))"
  by (auto simp: ends_lits list_all2_lit_match)

lemma plus_step_in:
  assumes r: "\<And>st. ends fl r st = step P st" and a: "a \<noteq> []" "\<forall>c \<in> set a. P c"
  shows "(lastopt p a, b, g) \<in> set (ends fl (Plus r) (p, a @ b, g))"
proof -
  from a obtain c cs where acs: "a = c # cs" "P c" "\<forall>x \<in> set cs. P x"
    by (cases a) auto
  have 1: "(Some c, cs @ b, g) \<in> set (ends fl r (p, a @ b, g))"
    using acs by (simp add: r)
  have 2: "(lastopt (Some c) cs, b, g) \<in> set (ends fl (Star r) (Some c, cs @ b, g))"
    using acs(3) by (auto simp: ends_Star_step[of fl r P, OF r])
  show ?thesis unfolding Plus_def using seq_in[OF 1 2] acs(1) by simp
qed

lemma keyword_letters:
  assumes "lower w = lower kw" "kw \<noteq> []" "\<forall>c \<in> set kw. 65 \<le> ord c \<and> ord c \<le> 90"
  shows "w \<noteq> [] \<and> isword (hd w) \<and> isword (last w) \<and> length w = length kw"
proof -
  have len: "length w = length kw"
    using assms(1) by (metis length_map lower_def)
  then have ne: "w \<noteq> []" using assms(2) by auto
  have "\<forall>i < length w. isword (w ! i)"
  proof (intro allI impI)
    fix i assume i: "i < length w"
    have "map lower_char w ! i = map lower_char kw ! i"
      using assms(1) by (simp add: lower_def)
    then have "lower_char (w ! i) = lower_char (kw ! i)" using i len by simp
    moreover have "65 \<le> ord (kw ! i) \<and> ord (kw ! i) \<le> 90"
      using assms(3) i len by simp
    ultimately show "isword (w ! i)" using isword_lower_letter by blast
  qed
  then have "isword (hd w)" "isword (last w)"
    using ne by (simp_all add: hd_conv_nth last_conv_nth)
  with ne len show ?thesis by simp
qed

lemma keyword_sound:
  assumes st: "st \<in> set (ends [IGNORECASE] (Seq WordB (Seq (lits kw) (Seq WordB Eps))) (p, s, g))"
    and kw: "kw \<noteq> []" "\<forall>c \<in> set kw. 65 \<le> ord c \<and> ord c \<le> 90"
  shows "keyword_at (lower kw) p s"
proof -
  from st obtain w r where b1: "at_boundary p s" and s: "s = w @ r"
    and m: "lower w = lower kw" and b2: "at_boundary (lastopt p w) r"
    by (auto simp: ends_lits list_all2_lit_match split: if_splits)
  from keyword_letters[OF m kw] have w: "w \<noteq> []" "isword (hd w)" "isword (last w)"
    "length w = length kw" by simp_all
  have "\<not> word_before p"
    using b1 s w by (cases w) (auto simp: at_boundary_def word_before_def split: option.splits)
  moreover have "\<not> word_next r"
    using b2 w by (auto simp: at_boundary_def word_next_def lastopt_def split: list.splits)
  ultimately show ?thesis
    using s m w by (simp add: keyword_at_def lower_def)
qed

lemma keyword_in_line_append:
  "keyword_at kw (lastopt p a) b \<Longrightarrow> \<forall>c \<in> set a. c \<noteq> newline \<Longrightarrow> keyword_in_line kw p (a @ b)"
proof (induction a arbitrary: p)
  case Nil
  then show ?case by (cases b) simp_all
next
  case (Cons c a)
  then show ?case by simp
qed

lemma upper_FROM: "\<forall>c \<in> set ''FROM''. 65 \<le> ord c \<and> ord c \<le> 90"
  by (simp add: ord_def)

lemma lower_keywords [simp]:
  "lower ''FROM'' = ''from''" "lower ''SELECT'' = ''select''"
  by code_simp+

lemma lookahead_sound:
  assumes "ends [IGNORECASE] (seqs [Star Dot, WordB, lits ''FROM'', WordB]) (p, s, g) \<noteq> []"
  shows "keyword_in_line ''from'' p s"
proof -
  from assms obtain st a b where ab: "s = a @ b" "\<forall>c \<in> set a. c \<noteq> newline"
    and st: "st \<in> set (ends [IGNORECASE] (Seq WordB (Seq (lits ''FROM'') (Seq WordB Eps)))
                          (lastopt p a, b, g))"
    by (auto simp: nonempty_set ends_Star_Dot)
  from keyword_sound[OF st _ upper_FROM]
  have "keyword_at (lower ''FROM'') (lastopt p a) b" by simp
  then show ?thesis
    using ab by (simp add: keyword_in_line_append)
qed

lemma select_no_from_complete:
  assumes "s = pre @ sel @ w # rest" "lower sel = ''select''" "isspace w"
    "\<not> keyword_in_line ''from'' (Some w) rest"
  shows "re_search select_no_from_pattern s [IGNORECASE]"
proof -
  let ?p = "lastopt None pre"
  let ?L = "seqs [Star Dot, WordB, lits ''FROM'', WordB]"
  have 1: "(lastopt ?p sel, w # rest, None)
             \<in> set (ends [IGNORECASE] (lits ''SELECT'') (?p, sel @ w # rest, None))"
    by (rule lits_in) (simp add: assms)
  have "(lastopt (lastopt ?p sel) [w], rest, None)
             \<in> set (ends [IGNORECASE] (Plus Space) (lastopt ?p sel, [w] @ rest, None))"
    by (rule plus_step_in[where P=isspace]) (simp_all add: assms)
  then have 2: "(Some w, rest, None)
             \<in> set (ends [IGNORECASE] (Plus Space) (lastopt ?p sel, w # rest, None))"
    by simp
  have "ends [IGNORECASE] ?L (Some w, rest, None) = []"
    using lookahead_sound assms(4) by blast
  then have 3: "(Some w, rest, None)
             \<in> set (ends [IGNORECASE] (Seq (NegLook ?L) Eps) (Some w, rest, None))"
    by simp
  have "ends [IGNORECASE] select_no_from_pattern (?p, sel @ w # rest, None) \<noteq> []"
    unfolding select_no_from_pattern_def seqs_Cons[of "lits ''SELECT''"] seqs_Cons[of "Plus Space"]
      seqs_Cons[of "NegLook ?L"] seqs_Nil nonempty_set
    using seq_in[OF 1 seq_in[OF 2 3]] by blast
  then show ?thesis
    unfolding re_search_iff using assms(1) by blast
qed

subsection \<open>The aggregator\<close>




section \<open>The claims\<close>

text \<open>
  C7. For every input with a hardcoded credential literal assigned to a password-like
  identifier (\<open>password\<close>, \<open>passwd\<close> or \<open>pwd\<close>, then \<open>=\<close> and a quoted literal, such as
  \<open>password = 'secret123'\<close>), the security checker emits a Warning in category
  \<open>security\<close>. The pattern of the source closes the literal with a double quote, not with
  a single one, so on the statement below, which holds exactly the literal of the claim,
  the checker finds nothing.
\<close>

theorem validate_security_quoted_password:
  "validate_security (''password = 'secret123'' @ [quote])
     = \<lparr>is_valid = True, issues = []\<rparr>"
  by code_simp

text \<open>
  C4. For every non-empty input that does not end in a semicolon the syntax checker emits
  an Info-level style note, and that note never affects the \<open>is_valid\<close> flag of the result
  it appears in. The checker computes its flag as "no issue at all": the same statement is
  valid with the semicolon and invalid without it, the note being the only issue.
\<close>

theorem validate_syntax_note_decides_validity:
  "validate_syntax ''SELECT a FROM t'' = \<lparr>is_valid = False, issues = [missing_semicolon_issue]\<rparr>
   \<and> validate_syntax ''SELECT a FROM t;'' = \<lparr>is_valid = True, issues = []\<rparr>"
  by code_simp

text \<open>
  C5. For every input that is empty or consists only of whitespace, the syntax checker
  returns exactly one issue, an Error of category \<open>syntax\<close> with the empty-statement
  message, and \<open>is_valid = False\<close>; no other syntax check contributes. The aggregator
  returns the same single issue on the empty string.
\<close>

theorem validate_syntax_empty:
  assumes "\<forall>c \<in> set sql. isspace c"
  shows "validate_syntax sql = \<lparr>is_valid = False, issues = [empty_statement_issue]\<rparr>
         \<and> severity empty_statement_issue = ERROR
         \<and> category empty_statement_issue = ''syntax''
         \<and> message empty_statement_issue = ''Empty SQL statement''
         \<and> validate_sql env [] config False
             = Inr \<lparr>is_valid = False, issues = [empty_statement_issue]\<rparr>"
proof -
  have "validate_sql env [] config False
          = Inr \<lparr>is_valid = False, issues = [empty_statement_issue]\<rparr>"
    by code_simp
  then show ?thesis
    using assms by (simp add: validate_syntax_blank strip_all_space empty_statement_issue_def)
qed

theorem validate_syntax_empty_witness:
  "validate_syntax [CHR 0x20, CHR 0x0A]
     = \<lparr>is_valid = False, issues = [empty_statement_issue]\<rparr>
   \<and> validate_sql failing_env [] None False
       = Inr \<lparr>is_valid = False, issues = [empty_statement_issue]\<rparr>"
proof -
  have h: "\<forall>c \<in> set [CHR 0x20, CHR 0x0A]. isspace c"
    by (simp add: isspace_def ord_def)
  show ?thesis using validate_syntax_empty [OF h, of failing_env None] by simp
qed

text \<open>
  C6. For every input, the syntax checker emits the Error for unbalanced single quotes
  exactly when the number of single quotes not directly preceded by a backslash is odd.
\<close>

theorem quote_error_iff_odd:
  "unbalanced_quotes_issue \<in> set (issues (validate_syntax sql)) \<longleftrightarrow> odd (unescaped_quotes sql)"
proof (cases "strip sql = []")
  case True
  then have "unescaped_quotes sql = 0"
    using unescaped_quotes_strip[of sql] by (simp add: unescaped_quotes_def)
  then show ?thesis
    using True
    by (simp add: validate_syntax_blank empty_statement_issue_def unbalanced_quotes_issue_def
        issue_eq_iff)
next
  case False
  have "int (unescaped_quotes sql) mod 2 \<noteq> 0 \<longleftrightarrow> odd (unescaped_quotes sql)"
    by presburger
  then show ?thesis
    using False
    by (simp add: validate_syntax_def Let_def single_quotes_eq unescaped_quotes_strip
        unbalanced_quotes_issue_def issue_eq_iff)
qed

text \<open>
  C10. For every non-empty input lacking a trailing semicolon, the Info issue the syntax
  checker emits carries category \<open>style\<close>, a category outside the documented set. As
  stated this fails on a non-empty input of whitespace only: the checker returns the
  empty-statement Error alone, and no Info issue.
\<close>

theorem style_note_blank_input_counterexample:
  "validate_syntax '' '' = \<lparr>is_valid = False, issues = [empty_statement_issue]\<rparr>
   \<and> severity empty_statement_issue = ERROR
   \<and> category empty_statement_issue = ''syntax''"
  by code_simp

text \<open>
  C10, amended. For every input that is not empty once stripped of whitespace and whose
  stripped text does not end in a semicolon, the syntax checker emits the missing-semicolon
  issue; it is an Info issue of category \<open>style\<close>, which is none of the documented
  categories, and it reaches the issues list of the aggregator's result too.
\<close>

theorem style_category_undocumented:
  assumes "strip sql \<noteq> []" "last (strip sql) \<noteq> CHR '';''"
  shows "missing_semicolon_issue \<in> set (issues (validate_syntax sql))
         \<and> severity missing_semicolon_issue = INFO
         \<and> category missing_semicolon_issue = ''style''
         \<and> ''style'' \<notin> set documented_categories
         \<and> (\<exists>r. validate_sql env sql config False = Inr r
                \<and> missing_semicolon_issue \<in> set (issues r))"
  using assms semicolon_strip[OF assms]
  by (simp add: validate_syntax_def validate_sql_def Let_def missing_semicolon_issue_def
      documented_categories_def)

theorem style_category_undocumented_witness:
  "strip ''SELECT 1'' \<noteq> [] \<and> last (strip ''SELECT 1'') \<noteq> CHR '';''
   \<and> missing_semicolon_issue \<in> set (issues (validate_syntax ''SELECT 1''))
   \<and> category missing_semicolon_issue = ''style''
   \<and> ''style'' \<notin> set documented_categories"
proof -
  have h1: "strip ''SELECT 1'' \<noteq> []" by code_simp
  have h2: "last (strip ''SELECT 1'') \<noteq> CHR '';''" by code_simp
  show ?thesis using h1 h2 style_category_undocumented [OF h1 h2] by simp
qed

text \<open>
  C9. For every input in which a SELECT keyword is followed by whitespace and the next FROM
  keyword occurs only on a later line, the syntax checker still emits the Error
  \<open>SELECT without FROM clause\<close>. As stated this fails: the whitespace after SELECT may be
  the newline itself, and the lookahead then starts on the line of FROM.
\<close>

theorem select_newline_from_counterexample:
  "validate_syntax (''SELECT'' @ [newline] @ ''FROM t;'') = \<lparr>is_valid = True, issues = []\<rparr>"
  by code_simp

text \<open>
  C9, amended. For every input whose stripped text holds SELECT (in any letter case)
  followed by a whitespace character \<open>w\<close> such that the FROM keyword does not occur between
  \<open>w\<close> and the next newline (or the end of the text), the syntax checker emits the Error
  \<open>SELECT without FROM clause\<close>: the lookahead scans only the rest of the line on which
  the matched whitespace ends.
\<close>

theorem select_without_from_on_line:
  assumes "strip sql = pre @ sel @ w # rest" "lower sel = ''select''" "isspace w"
    "\<not> keyword_in_line ''from'' (Some w) rest"
  shows "select_without_from_issue \<in> set (issues (validate_syntax sql))
         \<and> severity select_without_from_issue = ERROR"
proof -
  have "re_search select_no_from_pattern (strip sql) [IGNORECASE]"
    using select_no_from_complete[OF assms] .
  moreover have "strip sql \<noteq> []" using assms(1) by simp
  ultimately show ?thesis
    by (simp add: validate_syntax_def Let_def select_without_from_issue_def)
qed

theorem select_without_from_on_line_witness:
  "strip (''SELECT a'' @ [newline] @ ''FROM t;'') = [] @ ''SELECT'' @ CHR '' '' # (''a'' @ [newline] @ ''FROM t;'')
   \<and> \<not> keyword_in_line ''from'' (Some CHR '' '') (''a'' @ [newline] @ ''FROM t;'')
   \<and> select_without_from_issue \<in> set (issues (validate_syntax (''SELECT a'' @ [newline] @ ''FROM t;'')))"
proof -
  have h1: "strip (''SELECT a'' @ [newline] @ ''FROM t;'')
              = [] @ ''SELECT'' @ CHR '' '' # (''a'' @ [newline] @ ''FROM t;'')"
    by code_simp
  have h2: "lower ''SELECT'' = ''select''" by code_simp
  have h3: "isspace CHR '' ''" by code_simp
  have h4: "\<not> keyword_in_line ''from'' (Some CHR '' '') (''a'' @ [newline] @ ''FROM t;'')"
    by code_simp
  show ?thesis
    using h1 h4 select_without_from_on_line [OF h1 h2 h3 h4] by simp
qed

text \<open>
  C8. For every input containing both the keyword SELECT and the keyword FROM but no LIMIT
  keyword, the performance checker emits an Info issue about the absent LIMIT clause. The
  test of the source, \<open>SELECT.+FROM\<close>, does not let \<open>.\<close> pass a newline, so a statement
  with FROM on the line after SELECT gets no such note, while the pattern
  \<open>SELECT\s+\*\s+FROM\<close> of the same function does find its SELECT and FROM across the
  newline: on the statement below the checker warns about \<open>SELECT *\<close> and says nothing
  about the missing LIMIT.
\<close>

theorem validate_performance_no_limit_note_across_lines:
  "validate_performance (''SELECT *'' @ [newline] @ ''FROM t'')
     = \<lparr>is_valid = True,
        issues = [issue WARNING ''performance''
                    ''SELECT * can be inefficient, specify columns'' None]\<rparr>"
  by code_simp








end
